theory Spec2Isabelle
  imports Complex_Main "HOL-Library.Word"
begin

section \<open>Errors\<close>

text \<open>
  Every throw of the sources is a value of this type.  \<open>padtypeToPads\<close> and \<open>malloc\<close>
  throw a plain \<open>Error\<close> with a message; the constructors carry the names the specification
  gives these two failures.  \<open>RangeError\<close> and \<open>TypeError\<close> are the built-in failures of
  \<open>new ArrayBuffer\<close>, \<open>new Float32Array\<close> and of a method call on \<open>undefined\<close>.
\<close>

datatype error =
    UnknownPaddingMode string
  | SizeMismatch
  | SlotError nat
  | RangeError
  | TypeError
  | UnboundVariable string

type_synonym 'a result = "error + 'a"

definition bindR :: "'a result \<Rightarrow> ('a \<Rightarrow> 'b result) \<Rightarrow> 'b result" where
  "bindR r f = (case r of Inl e \<Rightarrow> Inl e | Inr x \<Rightarrow> f x)"


section \<open>The padding policy (\<open>padtypeToPads\<close> of the lax module)\<close>

text \<open>
  \<open>String.prototype.toUpperCase\<close>, exact on ASCII strings: the letters \<open>a\<close> to
  \<open>z\<close> lose bit 5 and every other ASCII character is kept.  Characters beyond ASCII,
  which JavaScript may map to other characters or to several, are left unchanged here.
\<close>

definition toUpperCaseChar :: "char \<Rightarrow> char" where
  "toUpperCaseChar c =
     (if 97 \<le> (of_char c :: nat) \<and> (of_char c :: nat) \<le> 122
      then (case c of Char b0 b1 b2 b3 b4 b5 b6 b7 \<Rightarrow> Char b0 b1 b2 b3 b4 False b6 b7)
      else c)"

definition toUpperCase :: "string \<Rightarrow> string" where
  "toUpperCase s = map toUpperCaseChar s"

text \<open>
  JavaScript numbers are modelled as unbounded integers (their arithmetic is exact for
  magnitudes below \<open>2\<^sup>5\<^sup>3\<close>).  The operator \<open>>>\<close> first
  converts its left operand to a signed 32-bit integer (\<open>ToInt32\<close>) and then shifts
  arithmetically by the right operand modulo 32.
\<close>

definition toInt32 :: "int \<Rightarrow> int" where
  "toInt32 x = (x + 2 ^ 31) mod 2 ^ 32 - 2 ^ 31"

definition sar :: "int \<Rightarrow> nat \<Rightarrow> int" where
  "sar x n = toInt32 x div 2 ^ (n mod 32)"

text \<open>
  The helpers \<open>rep\<close> and \<open>zipn\<close> come from a utility module that is not among the
  sources: \<open>rep n x\<close> is the array of \<open>n\<close> copies of \<open>x\<close>, \<open>zipn\<close> tuples its
  argument arrays position by position (up to the shortest one).
\<close>

definition rep :: "nat \<Rightarrow> 'a \<Rightarrow> 'a list" where
  "rep n x = replicate n x"

fun zipn :: "'a list \<Rightarrow> 'a list \<Rightarrow> 'a list \<Rightarrow> 'a list \<Rightarrow> 'a list
    \<Rightarrow> ('a \<times> 'a \<times> 'a \<times> 'a \<times> 'a) list" where
  "zipn (a # as) (b # bs) (c # cs) (d # ds) (e # es) = (a, b, c, d, e) # zipn as bs cs ds es"
| "zipn _ _ _ _ _ = []"

text \<open>
  \<open>const outShape = inShape.map((size, i) => Math.ceil(size / strides[i]))\<close>.
  A position beyond the end of \<open>strides\<close> would be \<open>NaN\<close> in JavaScript; \<open>zipn\<close>
  drops such positions, and every statement below takes the four arrays of equal length.
\<close>

definition outShape :: "int list \<Rightarrow> int list \<Rightarrow> int list" where
  "outShape inShape strides =
     map (\<lambda>(size, i). \<lceil>real_of_int size / real_of_int (strides ! i)\<rceil>)
         (zip inShape [0..<length inShape])"

definition padSizes :: "int list \<Rightarrow> int list \<Rightarrow> int list \<Rightarrow> int list \<Rightarrow> int list" where
  "padSizes inShape filterShape strides dilation =
     map (\<lambda>(out, s, k, d, i). max 0 ((out - 1) * s + 1 + (k - 1) * d - i))
         (zipn (outShape inShape strides) strides filterShape dilation inShape)"

definition padtypeToPads ::
  "int list \<Rightarrow> int list \<Rightarrow> int list \<Rightarrow> int list \<Rightarrow> string \<Rightarrow> (int \<times> int) list result" where
  "padtypeToPads inShape filterShape strides dilation padding =
     (let padType = toUpperCase padding in
      if padType = ''VALID'' then Inr (rep (length inShape) (0, 0))
      else if padType = ''SAME'' \<or> padType = ''SAME_LOWER'' then
        (let padSizes = padSizes inShape filterShape strides dilation
         in if padType = ''SAME''
            then Inr (map (\<lambda>size. (sar size 1, size - sar size 1)) padSizes)
            else Inr (map (\<lambda>size. (size - sar size 1, sar size 1)) padSizes))
      else Inl (UnknownPaddingMode padType))"


section \<open>Scalar expressions\<close>

text \<open>
  Modelled from the spec: the module \<open>alu\<close> (class \<open>AluExp\<close>, enumeration \<open>DType\<close>) is
  not among the sources.  The node kinds are those of the data model: constants, free
  variables, special variables with their extent, binary operations (add, mul, floordiv,
  mod, lt, ge, and, or) and the ternary select.  Values are integers, booleans are
  \<open>0\<close>/\<open>1\<close>; floordiv and mod round towards minus infinity; \<open>evaluate\<close> fails with
  \<open>UnboundVariable\<close> on a name missing from the binding and evaluates only the chosen
  branch of a select.
\<close>

datatype DType = Int32 | Bool

datatype AluOp = OpAdd | OpMul | OpFloordiv | OpMod | OpLt | OpGe | OpAnd | OpOr

datatype AluExp =
    Const DType int
  | Variable DType string
  | Special DType string int
  | BinaryOp AluOp AluExp AluExp
  | Select AluExp AluExp AluExp

definition boolInt :: "bool \<Rightarrow> int" where
  "boolInt b = (if b then 1 else 0)"

fun applyOp :: "AluOp \<Rightarrow> int \<Rightarrow> int \<Rightarrow> int" where
  "applyOp OpAdd x y = x + y"
| "applyOp OpMul x y = x * y"
| "applyOp OpFloordiv x y = x div y"
| "applyOp OpMod x y = x mod y"
| "applyOp OpLt x y = boolInt (x < y)"
| "applyOp OpGe x y = boolInt (y \<le> x)"
| "applyOp OpAnd x y = boolInt (x \<noteq> 0 \<and> y \<noteq> 0)"
| "applyOp OpOr x y = boolInt (x \<noteq> 0 \<or> y \<noteq> 0)"

fun evaluate :: "AluExp \<Rightarrow> (string \<rightharpoonup> int) \<Rightarrow> int result" where
  "evaluate (Const t v) env = Inr v"
| "evaluate (Variable t name) env =
     (case env name of None \<Rightarrow> Inl (UnboundVariable name) | Some v \<Rightarrow> Inr v)"
| "evaluate (Special t name extent) env =
     (case env name of None \<Rightarrow> Inl (UnboundVariable name) | Some v \<Rightarrow> Inr v)"
| "evaluate (BinaryOp k l r) env =
     bindR (evaluate l env) (\<lambda>x. bindR (evaluate r env) (\<lambda>y. Inr (applyOp k x y)))"
| "evaluate (Select c t f) env =
     bindR (evaluate c env) (\<lambda>b. if b \<noteq> 0 then evaluate t env else evaluate f env)"


section \<open>Shape trackers\<close>

text \<open>
  Modelled from the spec: the module \<open>shape\<close> (class \<open>ShapeTracker\<close>, function
  \<open>unravelAlu\<close>) is not among the sources.  A tracker is modelled by its public interface:
  its logical \<open>shape\<close> and the terminal operation \<open>toAluExp\<close>, which takes one
  expression per logical dimension and returns the pair (flat offset, validity).
\<close>

record ShapeTracker =
  shape :: "int list"
  toAluExp :: "AluExp list \<Rightarrow> AluExp \<times> AluExp"

fun rowMajorStrides :: "int list \<Rightarrow> int list" where
  "rowMajorStrides [] = []"
| "rowMajorStrides (n # ns) = prod_list ns # rowMajorStrides ns"

fun strideSum :: "AluExp list \<Rightarrow> int list \<Rightarrow> AluExp" where
  "strideSum (i # is) (s # ss) =
     BinaryOp OpAdd (BinaryOp OpMul i (Const Int32 s)) (strideSum is ss)"
| "strideSum _ _ = Const Int32 0"

text \<open>
  Modelled from the spec: \<open>fromShape\<close> is the root constructor, one identity view with
  matching (row-major) strides, offset 0, always valid.
\<close>

definition fromShape :: "int list \<Rightarrow> ShapeTracker" where
  "fromShape s =
     \<lparr> shape = s,
       toAluExp = (\<lambda>idxs. (strideSum idxs (rowMajorStrides s), Const Bool 1)) \<rparr>"

text \<open>
  Modelled from the spec: \<open>unravelAlu shape offset\<close> gives the logical index of each
  dimension for a flat (row-major) position, so that the reference backend can visit
  "every logical output position".
\<close>

fun unravelAlu :: "int list \<Rightarrow> AluExp \<Rightarrow> AluExp list" where
  "unravelAlu [] offset = []"
| "unravelAlu (n # ns) offset =
     BinaryOp OpMod (BinaryOp OpFloordiv offset (Const Int32 (prod_list ns))) (Const Int32 n)
       # unravelAlu ns offset"

text \<open>
  Modelled from the spec: \<open>pool\<close> of the module \<open>frontend/convolution\<close>, which is not
  among the sources.  For input rank \<open>r\<close> the result has rank \<open>2r\<close>: the first \<open>r\<close>
  dimensions are the top-left positions of the window, advancing by \<open>strides\<close> (as many
  as fit, since pooling introduces no invalidity), the last \<open>r\<close> are the offsets within
  the window.  The index expression at \<open>(o, w)\<close> is that of the original tracker at
  \<open>o\<^sub>d * strides\<^sub>d + w\<^sub>d\<close>, and the validity is the original tracker's.
\<close>

definition windowIndex :: "AluExp \<Rightarrow> int \<Rightarrow> AluExp \<Rightarrow> AluExp" where
  "windowIndex od sd wd = BinaryOp OpAdd (BinaryOp OpMul od (Const Int32 sd)) wd"

definition pool :: "ShapeTracker \<Rightarrow> int list \<Rightarrow> int list \<Rightarrow> ShapeTracker" where
  "pool st window strides =
     (let r = length (shape st) in
      \<lparr> shape = map (\<lambda>(n, k, s). (n - k) div s + 1) (zip (shape st) (zip window strides))
                 @ window,
        toAluExp = (\<lambda>idxs. toAluExp st
           (map (\<lambda>(od, sd, wd). windowIndex od sd wd)
                (zip (take r idxs) (zip strides (drop r idxs))))) \<rparr>)"

text \<open>
  Modelled from the spec: \<open>poolTranspose\<close> of the module \<open>frontend/convolution\<close>, which
  is not among the sources.  The result has the original shape followed by synthesized
  extra dimensions.  The spec does not say how a synthesized coordinate names a window
  placement, nor how many values it takes (the repository's test records the extents
  \<open>[3, 5]\<close>); both are parameters here: \<open>extents\<close>, and \<open>place d p e\<close>, which gives for
  dimension \<open>d\<close>, position \<open>p\<close> and synthesized coordinate \<open>e\<close> the window placement
  \<open>(o, w)\<close>.  The index is the pooled tracker's index at that placement.  The validity is
  derived as the spec's design notes ask: the window read is in range (\<open>o\<close> within the
  pooled extent, \<open>w\<close> within the window) and this window touches exactly this input
  position (\<open>o * stride + w = p\<close>), together with the pooled tracker's own validity.
\<close>

definition inRange :: "AluExp \<Rightarrow> int \<Rightarrow> AluExp" where
  "inRange x n =
     BinaryOp OpAnd (BinaryOp OpGe x (Const Int32 0)) (BinaryOp OpLt x (Const Int32 n))"

definition sameIndex :: "AluExp \<Rightarrow> AluExp \<Rightarrow> AluExp" where
  "sameIndex x y = BinaryOp OpAnd (BinaryOp OpGe x y) (BinaryOp OpGe y x)"

definition allOf :: "AluExp list \<Rightarrow> AluExp" where
  "allOf cs = foldr (BinaryOp OpAnd) cs (Const Bool 1)"

definition poolTranspose ::
  "ShapeTracker \<Rightarrow> int list \<Rightarrow> int list \<Rightarrow> int list \<Rightarrow> int list
     \<Rightarrow> (nat \<Rightarrow> AluExp \<Rightarrow> AluExp \<Rightarrow> AluExp \<times> AluExp) \<Rightarrow> ShapeTracker" where
  "poolTranspose st originalShape window strides extents place =
     (let r = length originalShape in
      \<lparr> shape = originalShape @ extents,
        toAluExp = (\<lambda>idxs.
          (let pos = take r idxs;
               placed = map (\<lambda>(d, p, e). place d p e) (zip [0..<r] (zip pos (drop r idxs)));
               os = map fst placed;
               ws = map snd placed;
               inner = toAluExp st (os @ ws);
               reads = map (\<lambda>(od, n). inRange od n) (zip os (take r (shape st)))
                     @ map (\<lambda>(wd, k). inRange wd k) (zip ws window);
               writes = map (\<lambda>(od, sd, wd, p). sameIndex (windowIndex od sd wd) p)
                          (zip os (zip strides (zip ws pos)))
           in (fst inner, BinaryOp OpAnd (snd inner) (allOf (reads @ writes))))) \<rparr>)"

text \<open>
  One way to name placements, used to run the model: the synthesized coordinate is the
  offset within the window, and the window position is \<open>(p - e) floordiv stride\<close>.
\<close>

definition placeByOffset :: "int list \<Rightarrow> nat \<Rightarrow> AluExp \<Rightarrow> AluExp \<Rightarrow> AluExp \<times> AluExp" where
  "placeByOffset strides d p e =
     (BinaryOp OpFloordiv (BinaryOp OpAdd p (BinaryOp OpMul e (Const Int32 (- 1))))
        (Const Int32 (strides ! d)), e)"

text \<open>
  The trackers of the test \<open>transpose of pool in 2d\<close>:
  \<open>pooled = pool(fromShape([7, 12]), [2, 2], [1, 2])\<close> and
  \<open>unpooled = poolTranspose(pooled, [7, 12], [2, 2], [1, 2])\<close>, the latter for given
  synthesized extents and placement naming.
\<close>

definition pooled :: ShapeTracker where
  "pooled = pool (fromShape [7, 12]) [2, 2] [1, 2]"

definition unpooled ::
  "int list \<Rightarrow> (nat \<Rightarrow> AluExp \<Rightarrow> AluExp \<Rightarrow> AluExp \<times> AluExp) \<Rightarrow> ShapeTracker" where
  "unpooled extents place = poolTranspose pooled [7, 12] [2, 2] [1, 2] extents place"

text \<open>
  \<open>evalShape\<close> of \<open>convolution.test.ts\<close>: one variable \<open>i0, i1, \<dots>\<close> per dimension,
  the tracker's expression pair over these variables, evaluated under the binding of the
  variables to the given indices (one index per dimension); the validity is converted
  with \<open>Boolean\<close>.
\<close>

fun decimal :: "nat \<Rightarrow> string" where
  "decimal n =
     (if n < 10 then [''0123456789'' ! n]
      else decimal (n div 10) @ [''0123456789'' ! (n mod 10)])"

definition evalShape :: "ShapeTracker \<Rightarrow> int list \<Rightarrow> (int \<times> bool) result" where
  "evalShape st indices =
     (let names = map (\<lambda>i. ''i'' @ decimal i) [0..<length (shape st)];
          vars = map (Variable Int32) names;
          (iexpr, vexpr) = toAluExp st vars;
          sub = map_of (zip names indices)
      in bindR (evaluate iexpr sub) (\<lambda>x. bindR (evaluate vexpr sub) (\<lambda>v. Inr (x, v \<noteq> 0))))"


section \<open>The CPU backend\<close>

text \<open>
  An \<open>ArrayBuffer\<close> is its list of bytes.  The backend owns a map from slots to
  \<open>{ref, buffer}\<close> entries and the counter \<open>nextSlot\<close>; slot numbers and reference
  counts are JavaScript numbers, modelled without an upper bound.  \<open>malloc\<close> creates a
  fresh \<open>ArrayBuffer\<close> for every slot, so the slot also serves as the identity of its
  buffer.
\<close>

type_synonym byte = "8 word"

record entry =
  ref :: int
  buffer :: "byte list"

record CPUBackend =
  buffers :: "nat \<rightharpoonup> entry"
  nextSlot :: nat

definition newCPUBackend :: CPUBackend where
  "newCPUBackend = \<lparr> buffers = Map.empty, nextSlot = 1 \<rparr>"

text \<open>
  \<open>new ArrayBuffer(size)\<close> (the size is \<open>sz\<close> below) throws a \<open>RangeError\<close> for a
  negative size and is zero-filled otherwise (memory is not bounded in the model); \<open>new Uint8Array(buffer).set(src)\<close> overwrites the first bytes of \<open>buffer\<close>
  with \<open>src\<close> and throws a \<open>RangeError\<close> if \<open>src\<close> is longer.
\<close>

definition newArrayBuffer :: "int \<Rightarrow> byte list result" where
  "newArrayBuffer sz = (if sz < 0 then Inl RangeError else Inr (replicate (nat sz) 0))"

definition uint8Set :: "byte list \<Rightarrow> byte list \<Rightarrow> byte list result" where
  "uint8Set buf src =
     (if length buf < length src then Inl RangeError else Inr (src @ drop (length src) buf))"

definition malloc :: "int \<Rightarrow> byte list option \<Rightarrow> CPUBackend \<Rightarrow> (nat \<times> CPUBackend) result" where
  "malloc sz initialData b =
     bindR (newArrayBuffer sz) (\<lambda>buf.
     bindR (case initialData of
              None \<Rightarrow> Inr buf
            | Some d \<Rightarrow> if int (length d) \<noteq> sz then Inl SizeMismatch else uint8Set buf d)
       (\<lambda>buf'.
          let slot = nextSlot b
          in Inr (slot, b\<lparr> nextSlot := nextSlot b + 1,
                          buffers := (buffers b)(slot \<mapsto> \<lparr> ref = 1, buffer = buf' \<rparr>) \<rparr>)))"

definition incRef :: "nat \<Rightarrow> CPUBackend \<Rightarrow> CPUBackend result" where
  "incRef slot b =
     (case buffers b slot of
        None \<Rightarrow> Inl (SlotError slot)
      | Some e \<Rightarrow> Inr (b\<lparr> buffers := (buffers b)(slot \<mapsto> e\<lparr> ref := ref e + 1 \<rparr>) \<rparr>))"

definition decRef :: "nat \<Rightarrow> CPUBackend \<Rightarrow> CPUBackend result" where
  "decRef slot b =
     (case buffers b slot of
        None \<Rightarrow> Inl (SlotError slot)
      | Some e \<Rightarrow>
          if ref e - 1 = 0
          then Inr (b\<lparr> buffers := (buffers b)(slot := None) \<rparr>)
          else Inr (b\<lparr> buffers := (buffers b)(slot \<mapsto> e\<lparr> ref := ref e - 1 \<rparr>) \<rparr>))"

definition getBuffer :: "nat \<Rightarrow> CPUBackend \<Rightarrow> byte list result" where
  "getBuffer slot b =
     (case buffers b slot of None \<Rightarrow> Inl (SlotError slot) | Some e \<Rightarrow> Inr (buffer e))"

text \<open>
  \<open>ArrayBuffer.prototype.slice(begin, end)\<close>: a negative index counts from the end, both
  indices are clamped to the buffer, and an empty range gives the empty buffer.
\<close>

definition slice :: "byte list \<Rightarrow> int \<Rightarrow> int \<Rightarrow> byte list" where
  "slice buf begin end =
     (let len = int (length buf);
          first = (if begin < 0 then max (len + begin) 0 else min begin len);
          final = (if end < 0 then max (len + end) 0 else min end len)
      in take (nat (max (final - first) 0)) (drop (nat first) buf))"

definition readSync :: "nat \<Rightarrow> int option \<Rightarrow> int option \<Rightarrow> CPUBackend \<Rightarrow> byte list result" where
  "readSync slot start count b =
     bindR (getBuffer slot b) (\<lambda>buf.
       let start' = (case start of None \<Rightarrow> 0 | Some s \<Rightarrow> s);
           count' = (case count of None \<Rightarrow> int (length buf) - start' | Some c \<Rightarrow> c)
       in Inr (slice buf start' (start' + count')))"


subsection \<open>Float32 views\<close>

text \<open>
  A \<open>Float32Array\<close> over a buffer reads and writes groups of four bytes; a float32 value
  is modelled by these four bytes (its bit pattern, in buffer order).  The constructor
  throws a \<open>RangeError\<close> unless the byte length is a multiple of 4, and gives the empty
  array for \<open>undefined\<close>.  Reading outside the array gives \<open>undefined\<close> (\<open>None\<close>).
  The arithmetic on float32 values is a parameter: \<open>f32add\<close> and \<open>f32mul\<close> give the
  float32 stored for the sum and product of two float32 values, \<open>f32nan\<close> the one stored
  for \<open>NaN\<close>, which is what JavaScript computes when an operand is \<open>undefined\<close>.
\<close>

datatype f32 = F32 byte byte byte byte

record f32arith =
  f32add :: "f32 \<Rightarrow> f32 \<Rightarrow> f32"
  f32mul :: "f32 \<Rightarrow> f32 \<Rightarrow> f32"
  f32nan :: f32

definition f32zero :: f32 where
  "f32zero = F32 0 0 0 0"

definition newFloat32Array :: "byte list option \<Rightarrow> byte list result" where
  "newFloat32Array a =
     (case a of
        None \<Rightarrow> Inr []
      | Some buf \<Rightarrow> if length buf mod 4 = 0 then Inr buf else Inl RangeError)"

definition f32length :: "byte list \<Rightarrow> nat" where
  "f32length buf = length buf div 4"

definition f32get :: "byte list \<Rightarrow> int \<Rightarrow> f32 option" where
  "f32get buf idx =
     (if 0 \<le> idx \<and> idx < int (f32length buf)
      then (let k = 4 * nat idx in Some (F32 (buf ! k) (buf ! (k + 1)) (buf ! (k + 2)) (buf ! (k + 3))))
      else None)"

fun f32bytes :: "f32 \<Rightarrow> byte list" where
  "f32bytes (F32 b0 b1 b2 b3) = [b0, b1, b2, b3]"

definition f32set :: "byte list \<Rightarrow> nat \<Rightarrow> f32 \<Rightarrow> byte list" where
  "f32set buf i v =
     (if i < f32length buf then take (4 * i) buf @ f32bytes v @ drop (4 * i + 4) buf else buf)"

fun numOp :: "f32arith \<Rightarrow> (f32 \<Rightarrow> f32 \<Rightarrow> f32) \<Rightarrow> f32 option \<Rightarrow> f32 option \<Rightarrow> f32" where
  "numOp ar f (Some x) (Some y) = f x y"
| "numOp ar f _ _ = f32nan ar"


subsection \<open>Operations\<close>

datatype BackendOp = Add | Mul

fun nthOpt :: "'a list \<Rightarrow> nat \<Rightarrow> 'a option" where
  "nthOpt [] n = None"
| "nthOpt (x # xs) 0 = Some x"
| "nthOpt (x # xs) (Suc n) = nthOpt xs n"

text \<open>
  The bytes behind a buffer reference at the current state of the backend (empty for a
  missing argument, whose \<open>Float32Array\<close> is empty).
\<close>

definition bytesOf :: "CPUBackend \<Rightarrow> nat option \<Rightarrow> byte list" where
  "bytesOf h r =
     (case r of
        None \<Rightarrow> []
      | Some s \<Rightarrow> (case buffers h s of None \<Rightarrow> [] | Some e \<Rightarrow> buffer e))"

definition store :: "CPUBackend \<Rightarrow> nat option \<Rightarrow> nat \<Rightarrow> f32 \<Rightarrow> CPUBackend" where
  "store h r i v =
     (case r of
        None \<Rightarrow> h
      | Some s \<Rightarrow> (case buffers h s of
                    None \<Rightarrow> h
                  | Some e \<Rightarrow> h\<lparr> buffers := (buffers h)(s \<mapsto> e\<lparr> buffer := f32set (buffer e) i v \<rparr>) \<rparr>))"

text \<open>
  \<open>valid.evaluate({gidx: i}) ? x32[exp.evaluate({gidx: i})] : 0\<close>
\<close>

definition operand :: "byte list \<Rightarrow> AluExp \<times> AluExp \<Rightarrow> nat \<Rightarrow> f32 option result" where
  "operand x32 ev i =
     bindR (evaluate (snd ev) [''gidx'' \<mapsto> int i]) (\<lambda>valid.
       if valid \<noteq> 0
       then bindR (evaluate (fst ev) [''gidx'' \<mapsto> int i]) (\<lambda>idx. Inr (f32get x32 idx))
       else Inr (Some f32zero))"

text \<open>One iteration of the loop of a binary operation, and the loop.\<close>

definition binaryStep ::
  "f32arith \<Rightarrow> (f32 \<Rightarrow> f32 \<Rightarrow> f32) \<Rightarrow> nat option \<Rightarrow> nat option \<Rightarrow> nat option
     \<Rightarrow> AluExp \<times> AluExp \<Rightarrow> AluExp \<times> AluExp \<Rightarrow> nat \<Rightarrow> CPUBackend \<Rightarrow> CPUBackend result" where
  "binaryStep ar f a b c as bs i h =
     bindR (operand (bytesOf h a) as i) (\<lambda>x.
     bindR (operand (bytesOf h b) bs i) (\<lambda>y.
       Inr (store h c i (numOp ar f x y))))"

fun forLoop :: "(nat \<Rightarrow> 's \<Rightarrow> 's result) \<Rightarrow> nat list \<Rightarrow> 's \<Rightarrow> unit result \<times> 's" where
  "forLoop body [] s = (Inr (), s)"
| "forLoop body (i # is) s =
     (case body i s of Inl e \<Rightarrow> (Inl e, s) | Inr s' \<Rightarrow> forLoop body is s')"

text \<open>
  The two entries of \<open>cpuOps\<close> differ in the operator only.  The buffers arrive as
  references (slots); \<open>[a, b]\<close>, \<open>[as, bs]\<close> and \<open>[c]\<close> destructure the argument arrays,
  a missing element being \<open>undefined\<close>.  \<open>indexPair st n\<close> is
  \<open>st.toAluExp(unravelAlu(st.shape, gidx))\<close> for the special variable \<open>gidx\<close> of
  extent \<open>n\<close>.
\<close>

definition indexPair :: "ShapeTracker \<Rightarrow> nat \<Rightarrow> AluExp \<times> AluExp" where
  "indexPair st n = toAluExp st (unravelAlu (shape st) (Special Int32 ''gidx'' (int n)))"

definition binaryOp ::
  "f32arith \<Rightarrow> (f32 \<Rightarrow> f32 \<Rightarrow> f32) \<Rightarrow> nat list \<Rightarrow> ShapeTracker list \<Rightarrow> nat list
     \<Rightarrow> CPUBackend \<Rightarrow> unit result \<times> CPUBackend" where
  "binaryOp ar f inputs shapes outputs h =
     (let a = nthOpt inputs 0; b = nthOpt inputs 1; c = nthOpt outputs 0 in
      case bindR (newFloat32Array (map_option (\<lambda>s. bytesOf h (Some s)) a)) (\<lambda>a32.
           bindR (newFloat32Array (map_option (\<lambda>s. bytesOf h (Some s)) b)) (\<lambda>b32.
           bindR (newFloat32Array (map_option (\<lambda>s. bytesOf h (Some s)) c)) (\<lambda>c32.
             case nthOpt shapes 0 of
               None \<Rightarrow> Inl TypeError
             | Some as \<Rightarrow>
                 (case nthOpt shapes 1 of
                    None \<Rightarrow> Inl TypeError
                  | Some bs \<Rightarrow>
                      Inr (f32length c32,
                           indexPair as (f32length c32),
                           indexPair bs (f32length c32)))))) of
        Inl e \<Rightarrow> (Inl e, h)
      | Inr (n, asev, bsev) \<Rightarrow> forLoop (binaryStep ar f a b c asev bsev) [0..<n] h)"

fun cpuOps ::
  "f32arith \<Rightarrow> BackendOp \<Rightarrow> nat list \<Rightarrow> ShapeTracker list \<Rightarrow> nat list
     \<Rightarrow> CPUBackend \<Rightarrow> unit result \<times> CPUBackend" where
  "cpuOps ar Add = binaryOp ar (f32add ar)"
| "cpuOps ar Mul = binaryOp ar (f32mul ar)"

fun mapR :: "('a \<Rightarrow> 'b result) \<Rightarrow> 'a list \<Rightarrow> 'b list result" where
  "mapR f [] = Inr []"
| "mapR f (x # xs) = bindR (f x) (\<lambda>y. bindR (mapR f xs) (\<lambda>ys. Inr (y # ys)))"

definition executeOpSync ::
  "f32arith \<Rightarrow> BackendOp \<Rightarrow> nat list \<Rightarrow> ShapeTracker list \<Rightarrow> nat list
     \<Rightarrow> CPUBackend \<Rightarrow> unit result \<times> CPUBackend" where
  "executeOpSync ar op inputs shapes outputs b =
     (case bindR (mapR (\<lambda>slot. getBuffer slot b) inputs) (\<lambda>inputBuffers.
             mapR (\<lambda>slot. getBuffer slot b) outputs) of
        Inl e \<Rightarrow> (Inl e, b)
      | Inr outputBuffers \<Rightarrow> cpuOps ar op inputs shapes outputs b)"


subsection \<open>Asynchronous forms\<close>

text \<open>
  A promise is pending, fulfilled with a value or rejected with an error.  The promise
  returned by an \<open>async\<close> function whose body contains no \<open>await\<close> is settled when the
  call returns: fulfilled with the value the body returns, rejected with what it throws.
\<close>

datatype 'a promise = Pending | Fulfilled 'a | Rejected error

definition async :: "'a result \<Rightarrow> 'a promise" where
  "async body = (case body of Inl e \<Rightarrow> Rejected e | Inr v \<Rightarrow> Fulfilled v)"

definition read :: "nat \<Rightarrow> int option \<Rightarrow> int option \<Rightarrow> CPUBackend \<Rightarrow> byte list promise" where
  "read slot start count b = async (readSync slot start count b)"

definition executeOp ::
  "f32arith \<Rightarrow> BackendOp \<Rightarrow> nat list \<Rightarrow> ShapeTracker list \<Rightarrow> nat list
     \<Rightarrow> CPUBackend \<Rightarrow> unit promise \<times> CPUBackend" where
  "executeOp ar op inputs shapes outputs b =
     (let (r, b') = executeOpSync ar op inputs shapes outputs b in (async r, b'))"

text \<open>
  The specification's wording of the asynchronous mirror: the synchronous form, wrapped
  in a future that is already resolved, or failed with the error of the synchronous form.
\<close>

fun alreadyResolved :: "'a result \<Rightarrow> 'a promise \<Rightarrow> bool" where
  "alreadyResolved (Inr v) (Fulfilled w) = (w = v)"
| "alreadyResolved (Inl e) (Rejected e') = (e' = e)"
| "alreadyResolved _ _ = False"


subsection \<open>Sequences of memory operations\<close>

text \<open>
  A caller's sequence of \<open>malloc\<close>, \<open>incRef\<close> and \<open>decRef\<close> calls on one backend.  A
  call that throws leaves the backend as it was.  \<open>run\<close> returns the final backend and
  the handles that the \<open>malloc\<close> calls returned, in order.
\<close>

datatype memOp = Malloc int "byte list option" | IncRef nat | DecRef nat

fun step :: "memOp \<Rightarrow> CPUBackend \<Rightarrow> CPUBackend \<times> nat list" where
  "step (Malloc sz initialData) b =
     (case malloc sz initialData b of Inl e \<Rightarrow> (b, []) | Inr (slot, b') \<Rightarrow> (b', [slot]))"
| "step (IncRef slot) b = (case incRef slot b of Inl e \<Rightarrow> (b, []) | Inr b' \<Rightarrow> (b', []))"
| "step (DecRef slot) b = (case decRef slot b of Inl e \<Rightarrow> (b, []) | Inr b' \<Rightarrow> (b', []))"

fun run :: "memOp list \<Rightarrow> CPUBackend \<Rightarrow> CPUBackend \<times> nat list" where
  "run [] b = (b, [])"
| "run (x # xs) b =
     (let (b', hs) = step x b; (b'', hs') = run xs b' in (b'', hs @ hs'))"


text \<open>
  The invariant of the slot table: every tracked slot was handed out by the counter and
  has a positive reference count.
\<close>

definition tracked :: "CPUBackend \<Rightarrow> bool" where
  "tracked b = (\<forall>s e. buffers b s = Some e \<longrightarrow> s < nextSlot b \<and> 1 \<le> ref e)"


subsection \<open>Float32 values of small integers\<close>








section \<open>The padding policy: results\<close>

lemma toUpperCase_tokens:
  "toUpperCase ''VALID'' = ''VALID''" "toUpperCase ''SAME'' = ''SAME''"
  "toUpperCase ''SAME_LOWER'' = ''SAME_LOWER''"
  by (simp_all add: toUpperCase_def toUpperCaseChar_def)

lemma zipn_length:
  "length bs = length as \<Longrightarrow> length cs = length as \<Longrightarrow> length ds = length as \<Longrightarrow>
   length es = length as \<Longrightarrow> length (zipn as bs cs ds es) = length as"
proof (induction as bs cs ds es rule: zipn.induct)
  case (1 a as b bs c cs d ds e es)
  then show ?case by simp
qed auto

lemma zipn_nth:
  "length bs = length as \<Longrightarrow> length cs = length as \<Longrightarrow> length ds = length as \<Longrightarrow>
   length es = length as \<Longrightarrow> j < length as \<Longrightarrow>
   zipn as bs cs ds es ! j = (as ! j, bs ! j, cs ! j, ds ! j, es ! j)"
proof (induction as bs cs ds es arbitrary: j rule: zipn.induct)
  case (1 a as b bs c cs d ds e es)
  then show ?case by (cases j) simp_all
qed auto

lemma outShape_length: "length (outShape inShape strides) = length inShape"
  by (simp add: outShape_def)

lemma outShape_nth:
  "j < length inShape \<Longrightarrow>
   outShape inShape strides ! j = \<lceil>real_of_int (inShape ! j) / real_of_int (strides ! j)\<rceil>"
  by (simp add: outShape_def)

lemma padSizes_length:
  assumes "length filterShape = length inShape" "length strides = length inShape"
    "length dilation = length inShape"
  shows "length (padSizes inShape filterShape strides dilation) = length inShape"
  using assms by (simp add: padSizes_def zipn_length outShape_length)

lemma padSizes_nth:
  assumes "length filterShape = length inShape" "length strides = length inShape"
    "length dilation = length inShape" "j < length inShape"
  shows "padSizes inShape filterShape strides dilation ! j =
     max 0 ((\<lceil>real_of_int (inShape ! j) / real_of_int (strides ! j)\<rceil> - 1) * strides ! j + 1
            + (filterShape ! j - 1) * dilation ! j - inShape ! j)"
  using assms by (simp add: padSizes_def zipn_length zipn_nth outShape_length outShape_nth)

lemma padSizes_nonneg:
  assumes "length filterShape = length inShape" "length strides = length inShape"
    "length dilation = length inShape" "d < length inShape"
  shows "0 \<le> padSizes inShape filterShape strides dilation ! d"
  using padSizes_nth [OF assms] by simp

lemma sar_small: "0 \<le> p \<Longrightarrow> p < 2 ^ 31 \<Longrightarrow> sar p 1 = p div 2"
  by (simp add: sar_def toInt32_def)

lemma floor_half: "\<lfloor>real_of_int p / 2\<rfloor> = p div 2"
  by (metis floor_divide_of_int_eq of_int_numeral)

lemma ceiling_half: "\<lceil>real_of_int p / 2\<rceil> = p - p div 2"
proof -
  have "\<lceil>real_of_int p / real_of_int 2\<rceil> = - ((- p) div 2)"
    by (rule ceiling_divide_eq_div)
  also have "\<dots> = p - p div 2" by presburger
  finally show ?thesis by simp
qed

lemma half_of_one: "\<lceil>(1 :: real) / 2\<rceil> = 1" "\<lfloor>(1 :: real) / 2\<rfloor> = 0"
  by (simp_all add: ceiling_eq_iff floor_eq_iff)


lemma padtypeToPads_SAME:
  "padtypeToPads inShape filterShape strides dilation ''SAME''
     = Inr (map (\<lambda>size. (sar size 1, size - sar size 1))
              (padSizes inShape filterShape strides dilation))"
  by (simp add: padtypeToPads_def toUpperCase_tokens)

lemma padtypeToPads_SAME_LOWER:
  "padtypeToPads inShape filterShape strides dilation ''SAME_LOWER''
     = Inr (map (\<lambda>size. (size - sar size 1, sar size 1))
              (padSizes inShape filterShape strides dilation))"
  by (simp add: padtypeToPads_def toUpperCase_tokens)



text \<open>
  Claim C5, amended.  For every dimension whose total padding \<open>p\<close> is below \<open>2\<^sup>3\<^sup>1\<close>:
  \<open>SAME\<close> gives \<open>(floor(p/2), ceil(p/2))\<close>, which is \<open>(p/2, p/2)\<close> for even \<open>p\<close> and puts
  the smaller half before for odd \<open>p\<close>; \<open>SAME_LOWER\<close> gives \<open>(ceil(p/2), floor(p/2))\<close>.
  (The halving is \<open>p >> 1\<close>, a 32-bit operation.)
\<close>

theorem padtypeToPads_split:
  assumes "length filterShape = length inShape" "length strides = length inShape"
    "length dilation = length inShape" "d < length inShape"
    and "p = padSizes inShape filterShape strides dilation ! d" and "p < 2 ^ 31"
  shows "\<exists>same lower.
           padtypeToPads inShape filterShape strides dilation ''SAME'' = Inr same \<and>
           padtypeToPads inShape filterShape strides dilation ''SAME_LOWER'' = Inr lower \<and>
           same ! d = (\<lfloor>real_of_int p / 2\<rfloor>, \<lceil>real_of_int p / 2\<rceil>) \<and>
           lower ! d = (\<lceil>real_of_int p / 2\<rceil>, \<lfloor>real_of_int p / 2\<rfloor>) \<and>
           (even p \<longrightarrow> same ! d = (p div 2, p div 2) \<and> lower ! d = (p div 2, p div 2))"
proof -
  have len: "d < length (padSizes inShape filterShape strides dilation)"
    using assms(1-4) by (simp add: padSizes_length)
  have "0 \<le> p" using padSizes_nonneg [OF assms(1-4)] assms(5) by simp
  then have sar: "sar p 1 = p div 2" using assms(6) by (rule sar_small)
  have ev: "even p \<Longrightarrow> p - p div 2 = p div 2" by presburger
  show ?thesis
    unfolding padtypeToPads_SAME padtypeToPads_SAME_LOWER floor_half ceiling_half
    using len sar ev assms(5) by simp
qed

theorem padtypeToPads_split_witness:
  "\<exists>same lower.
     padtypeToPads [7, 12] [3, 3] [1, 2] [1, 1] ''SAME'' = Inr same \<and>
     padtypeToPads [7, 12] [3, 3] [1, 2] [1, 1] ''SAME_LOWER'' = Inr lower \<and>
     same ! 1 = (0, 1) \<and> lower ! 1 = (1, 0)"
proof -
  have p: "padSizes [7, 12] [3, 3] [1, 2] [1, 1] ! 1 = 1"
    by (simp add: padSizes_def outShape_def upt_rec)
  show ?thesis
    using padtypeToPads_split [of "[3, 3]" "[7, 12]" "[1, 2]" "[1, 1]" 1 1] p
    by (simp add: half_of_one)
qed

text \<open>
  The claim as stated fails for a total padding of \<open>2\<^sup>3\<^sup>1\<close> (input size 1, kernel 2,
  stride 1, dilation \<open>2\<^sup>3\<^sup>1\<close>): the total is even, and \<open>SAME\<close> does not split it into
  two equal halves.
\<close>

theorem padtypeToPads_split_counterexample:
  "padSizes [1] [2] [1] [2147483648] = [2147483648] \<and> even (2147483648 :: int) \<and>
   padtypeToPads [1] [2] [1] [2147483648] ''SAME'' = Inr [(- 1073741824, 3221225472)] \<and>
   (- 1073741824, 3221225472) \<noteq> (2147483648 div 2 :: int, 2147483648 div 2 :: int)"
  by (simp add: padtypeToPads_SAME padSizes_def outShape_def sar_def toInt32_def)

text \<open>
  Claim C6, amended.  For every dimension whose total padding is below \<open>2\<^sup>3\<^sup>1\<close>:
  \<open>SAME\<close> uses the floor/ceil split, and \<open>SAME_LOWER\<close> uses the mirrored split, in which
  the before side gets the larger half of an odd total.
\<close>

theorem padtypeToPads_mirror:
  assumes "length filterShape = length inShape" "length strides = length inShape"
    "length dilation = length inShape" "d < length inShape"
    and "padSizes inShape filterShape strides dilation ! d < 2 ^ 31"
  shows "\<exists>same lower.
           padtypeToPads inShape filterShape strides dilation ''SAME'' = Inr same \<and>
           padtypeToPads inShape filterShape strides dilation ''SAME_LOWER'' = Inr lower \<and>
           fst (same ! d) = \<lfloor>real_of_int (padSizes inShape filterShape strides dilation ! d) / 2\<rfloor> \<and>
           snd (same ! d) = \<lceil>real_of_int (padSizes inShape filterShape strides dilation ! d) / 2\<rceil> \<and>
           lower ! d = prod.swap (same ! d) \<and>
           snd (lower ! d) \<le> fst (lower ! d) \<and> fst (lower ! d) \<le> snd (lower ! d) + 1"
proof -
  let ?p = "padSizes inShape filterShape strides dilation ! d"
  have len: "d < length (padSizes inShape filterShape strides dilation)"
    using assms(1-4) by (simp add: padSizes_length)
  have "0 \<le> ?p" using padSizes_nonneg [OF assms(1-4)] by simp
  then have sar: "sar ?p 1 = ?p div 2" using assms(5) by (rule sar_small)
  have b: "?p div 2 \<le> ?p - ?p div 2" "?p - ?p div 2 \<le> ?p div 2 + 1" by presburger+
  show ?thesis
    unfolding padtypeToPads_SAME padtypeToPads_SAME_LOWER floor_half ceiling_half
    using len sar b by simp
qed

theorem padtypeToPads_mirror_witness:
  "\<exists>same lower.
     padtypeToPads [2] [2] [1] [1] ''SAME'' = Inr same \<and>
     padtypeToPads [2] [2] [1] [1] ''SAME_LOWER'' = Inr lower \<and>
     same ! 0 = (0, 1) \<and> lower ! 0 = (1, 0)"
proof -
  have p: "padSizes [2] [2] [1] [1] ! 0 = 1"
    by (simp add: padSizes_def outShape_def)
  obtain same lower where
    "padtypeToPads [2] [2] [1] [1] ''SAME'' = Inr same"
    "padtypeToPads [2] [2] [1] [1] ''SAME_LOWER'' = Inr lower"
    "fst (same ! 0) = 0" "snd (same ! 0) = 1" "lower ! 0 = prod.swap (same ! 0)"
    using padtypeToPads_mirror [of "[2]" "[2]" "[1]" "[1]" 0] by (auto simp add: p half_of_one)
  then show ?thesis by (cases "same ! 0") auto
qed

text \<open>
  The claim as stated fails for a total padding of 1 (input size 2, kernel 2, stride 1,
  dilation 1): \<open>SAME_LOWER\<close> gives \<open>(1, 0)\<close>, so the after side does not get the larger
  half.  It also fails for a total padding of \<open>2\<^sup>3\<^sup>1\<close>, where the before side of
  \<open>SAME\<close> is not the floor of the half.
\<close>

theorem padtypeToPads_mirror_counterexample:
  "padSizes [2] [2] [1] [1] = [1] \<and>
   padtypeToPads [2] [2] [1] [1] ''SAME_LOWER'' = Inr [(1, 0)] \<and>
   \<not> (fst (1 :: int, 0 :: int) \<le> snd (1 :: int, 0 :: int)) \<and>
   padSizes [1] [2] [1] [2147483648] = [2147483648] \<and>
   padtypeToPads [1] [2] [1] [2147483648] ''SAME'' = Inr [(- 1073741824, 3221225472)] \<and>
   (- 1073741824 :: int) \<noteq> \<lfloor>real_of_int 2147483648 / 2\<rfloor>"
  by (simp add: padtypeToPads_SAME padtypeToPads_SAME_LOWER padSizes_def outShape_def sar_def
      toInt32_def)

text \<open>
  Claim C7, amended.  The token is compared after conversion to upper case: for every
  token whose upper-case form is not one of \<open>VALID\<close>, \<open>SAME\<close>, \<open>SAME_LOWER\<close> the call
  itself fails with \<open>UnknownPaddingMode\<close> (carrying the upper-case form), and for every
  other token it returns pads.
\<close>

theorem padtypeToPads_unknown:
  "(toUpperCase padding \<notin> {''VALID'', ''SAME'', ''SAME_LOWER''} \<longrightarrow>
      padtypeToPads inShape filterShape strides dilation padding
        = Inl (UnknownPaddingMode (toUpperCase padding))) \<and>
   (toUpperCase padding \<in> {''VALID'', ''SAME'', ''SAME_LOWER''} \<longrightarrow>
      (\<exists>pads. padtypeToPads inShape filterShape strides dilation padding = Inr pads))"
  by (simp add: padtypeToPads_def Let_def)

theorem padtypeToPads_unknown_witness:
  "padtypeToPads [7] [3] [1] [1] ''circular'' = Inl (UnknownPaddingMode ''CIRCULAR'') \<and>
   (\<exists>pads. padtypeToPads [7] [3] [1] [1] ''Same'' = Inr pads)"
proof -
  have u: "toUpperCase ''circular'' = ''CIRCULAR''" "toUpperCase ''Same'' = ''SAME''"
    by (simp_all add: toUpperCase_def toUpperCaseChar_def)
  show ?thesis
    using padtypeToPads_unknown [of "''circular''" "[7]" "[3]" "[1]" "[1]"]
      padtypeToPads_unknown [of "''Same''" "[7]" "[3]" "[1]" "[1]"]
    by (simp add: u)
qed

text \<open>
  The claim as stated fails for the token \<open>same\<close>: it is none of the three tokens, and
  the call returns pads.
\<close>

theorem padtypeToPads_unknown_counterexample:
  "''same'' \<notin> {''VALID'', ''SAME'', ''SAME_LOWER''} \<and>
   padtypeToPads [7] [3] [1] [1] ''same'' = Inr [(1, 1)]"
  by (simp add: padtypeToPads_def toUpperCase_def toUpperCaseChar_def padSizes_def
      outShape_def sar_def toInt32_def)


section \<open>The CPU backend: memory\<close>

lemma bindR_Inr: "(bindR r f = Inr v) = (\<exists>x. r = Inr x \<and> f x = Inr v)"
  by (cases r) (simp_all add: bindR_def)


lemma malloc_Inr:
  "malloc sz init b = Inr (slot, b1) \<Longrightarrow>
   slot = nextSlot b \<and> nextSlot b1 = nextSlot b + 1 \<and>
   (\<exists>buf. buffers b1 = (buffers b)(slot \<mapsto> \<lparr> ref = 1, buffer = buf \<rparr>))"
  by (auto simp add: malloc_def bindR_def Let_def split: sum.splits option.splits if_splits)

lemma readSync_None: "buffers b slot = None \<Longrightarrow> readSync slot start count b = Inl (SlotError slot)"
  by (simp add: readSync_def getBuffer_def bindR_def)

lemma readSync_Some: "buffers b slot = Some e \<Longrightarrow> \<exists>bytes. readSync slot start count b = Inr bytes"
  by (simp add: readSync_def getBuffer_def bindR_def Let_def)

lemma incRef_None: "buffers b slot = None \<Longrightarrow> incRef slot b = Inl (SlotError slot)"
  by (simp add: incRef_def)

lemma decRef_None: "buffers b slot = None \<Longrightarrow> decRef slot b = Inl (SlotError slot)"
  by (simp add: decRef_def)

lemma incRef_Some:
  "buffers b slot = Some e \<Longrightarrow>
   \<exists>b'. incRef slot b = Inr b' \<and> buffers b' slot = Some (e\<lparr> ref := ref e + 1 \<rparr>)"
  by (simp add: incRef_def)

lemma decRef_last:
  "buffers b slot = Some e \<Longrightarrow> ref e = 1 \<Longrightarrow>
   \<exists>b'. decRef slot b = Inr b' \<and> buffers b' slot = None"
  by (simp add: decRef_def)

lemma decRef_more:
  "buffers b slot = Some e \<Longrightarrow> ref e \<noteq> 1 \<Longrightarrow>
   \<exists>b'. decRef slot b = Inr b' \<and> buffers b' slot = Some (e\<lparr> ref := ref e - 1 \<rparr>)"
  by (simp add: decRef_def)

text \<open>
  Claim C3.  A slot returned by \<open>malloc\<close> has reference count 1.  One \<open>decRef\<close> frees
  it, and then \<open>readSync\<close>, \<open>incRef\<close> and \<open>decRef\<close> on the handle fail with \<open>SlotError\<close>.
  After \<open>malloc\<close> and two \<open>incRef\<close> calls, the slot is still live and \<open>readSync\<close>
  succeeds after the first and after the second \<open>decRef\<close>; the third \<open>decRef\<close> frees
  it, and \<open>readSync\<close> then fails with \<open>SlotError\<close>.
\<close>

theorem refcount_lifecycle:
  assumes "malloc sz initialData b = Inr (slot, b1)"
  shows "(\<exists>e. buffers b1 slot = Some e \<and> ref e = 1) \<and>
    (\<exists>b2. decRef slot b1 = Inr b2 \<and> buffers b2 slot = None \<and>
       readSync slot start count b2 = Inl (SlotError slot) \<and>
       incRef slot b2 = Inl (SlotError slot) \<and>
       decRef slot b2 = Inl (SlotError slot)) \<and>
    (\<exists>b2 b3 b4 b5 b6.
       incRef slot b1 = Inr b2 \<and> incRef slot b2 = Inr b3 \<and>
       decRef slot b3 = Inr b4 \<and> buffers b4 slot \<noteq> None \<and>
       (\<exists>bytes. readSync slot start count b4 = Inr bytes) \<and>
       decRef slot b4 = Inr b5 \<and> buffers b5 slot \<noteq> None \<and>
       (\<exists>bytes. readSync slot start count b5 = Inr bytes) \<and>
       decRef slot b5 = Inr b6 \<and> buffers b6 slot = None \<and>
       readSync slot start count b6 = Inl (SlotError slot))"
proof -
  from malloc_Inr [OF assms] obtain buf where
    e1: "buffers b1 slot = Some \<lparr> ref = 1, buffer = buf \<rparr>" by auto
  have first: "\<exists>e. buffers b1 slot = Some e \<and> ref e = 1" using e1 by simp
  obtain c2 where c2: "decRef slot b1 = Inr c2" "buffers c2 slot = None"
    using decRef_last [OF e1] by auto
  have second: "\<exists>b2. decRef slot b1 = Inr b2 \<and> buffers b2 slot = None \<and>
       readSync slot start count b2 = Inl (SlotError slot) \<and>
       incRef slot b2 = Inl (SlotError slot) \<and>
       decRef slot b2 = Inl (SlotError slot)"
    using c2 by (simp add: readSync_None incRef_None decRef_None)
  obtain b2 where b2: "incRef slot b1 = Inr b2" "buffers b2 slot = Some \<lparr> ref = 2, buffer = buf \<rparr>"
    using incRef_Some [OF e1] by auto
  obtain b3 where b3: "incRef slot b2 = Inr b3" "buffers b3 slot = Some \<lparr> ref = 3, buffer = buf \<rparr>"
    using incRef_Some [OF b2(2)] by auto
  obtain b4 where b4: "decRef slot b3 = Inr b4" "buffers b4 slot = Some \<lparr> ref = 2, buffer = buf \<rparr>"
    using decRef_more [OF b3(2)] by auto
  obtain b5 where b5: "decRef slot b4 = Inr b5" "buffers b5 slot = Some \<lparr> ref = 1, buffer = buf \<rparr>"
    using decRef_more [OF b4(2)] by auto
  obtain b6 where b6: "decRef slot b5 = Inr b6" "buffers b6 slot = None"
    using decRef_last [OF b5(2)] by auto
  have third: "\<exists>b2 b3 b4 b5 b6.
       incRef slot b1 = Inr b2 \<and> incRef slot b2 = Inr b3 \<and>
       decRef slot b3 = Inr b4 \<and> buffers b4 slot \<noteq> None \<and>
       (\<exists>bytes. readSync slot start count b4 = Inr bytes) \<and>
       decRef slot b4 = Inr b5 \<and> buffers b5 slot \<noteq> None \<and>
       (\<exists>bytes. readSync slot start count b5 = Inr bytes) \<and>
       decRef slot b5 = Inr b6 \<and> buffers b6 slot = None \<and>
       readSync slot start count b6 = Inl (SlotError slot)"
    using b2 b3 b4 b5 b6 readSync_Some [OF b4(2)] readSync_Some [OF b5(2)] readSync_None [OF b6(2)]
    by (intro exI [of _ b2] exI [of _ b3] exI [of _ b4] exI [of _ b5] exI [of _ b6]) simp
  show ?thesis using first second third by blast
qed

theorem refcount_lifecycle_witness:
  "\<exists>b1. malloc 4 None newCPUBackend = Inr (1, b1) \<and>
     (\<exists>e. buffers b1 1 = Some e \<and> ref e = 1) \<and>
     (\<exists>b2. decRef 1 b1 = Inr b2 \<and> readSync 1 None None b2 = Inl (SlotError 1))"
proof -
  obtain b1 where m: "malloc 4 None newCPUBackend = Inr (1, b1)"
    by (simp add: malloc_def newArrayBuffer_def bindR_def newCPUBackend_def)
  show ?thesis
    using refcount_lifecycle [OF m, of None None] m by auto
qed




subsection \<open>Slot handles over a sequence of calls\<close>

lemma step_cases:
  assumes "step x b = (b', hs)"
  obtains (same) "b' = b" "hs = []"
  | (malloc) buf where "hs = [nextSlot b]" "nextSlot b' = nextSlot b + 1"
      "buffers b' = (buffers b)(nextSlot b \<mapsto> \<lparr> ref = 1, buffer = buf \<rparr>)"
  | (inc) s e where "hs = []" "nextSlot b' = nextSlot b" "buffers b s = Some e"
      "buffers b' = (buffers b)(s \<mapsto> e\<lparr> ref := ref e + 1 \<rparr>)"
  | (dec) s e where "hs = []" "nextSlot b' = nextSlot b" "buffers b s = Some e" "ref e - 1 \<noteq> 0"
      "buffers b' = (buffers b)(s \<mapsto> e\<lparr> ref := ref e - 1 \<rparr>)"
  | (free) s where "hs = []" "nextSlot b' = nextSlot b" "buffers b' = (buffers b)(s := None)"
proof (cases x)
  case (Malloc sz init)
  show ?thesis
  proof (cases "malloc sz init b")
    case (Inl e)
    with Malloc assms show ?thesis by (auto intro: same)
  next
    case (Inr p)
    obtain slot b1 where p: "p = (slot, b1)" by (cases p)
    from Inr p Malloc assms have "b' = b1" "hs = [slot]" by auto
    with malloc_Inr [OF Inr [unfolded p]] show ?thesis by (auto intro: malloc)
  qed
next
  case (IncRef s)
  with assms show ?thesis
    by (cases "buffers b s") (auto simp add: incRef_def intro: same inc)
next
  case (DecRef s)
  show ?thesis
  proof (cases "buffers b s")
    case None
    with DecRef assms show ?thesis by (auto simp add: decRef_def intro: same)
  next
    case (Some e)
    show ?thesis
    proof (cases "ref e - 1 = 0")
      case True
      with Some DecRef assms show ?thesis by (auto simp add: decRef_def intro: free)
    next
      case False
      with Some DecRef assms show ?thesis by (auto simp add: decRef_def intro: dec)
    qed
  qed
qed

lemma step_tracked:
  assumes "step x b = (b', hs)" "tracked b"
  shows "tracked b'"
  using assms(1)
proof (cases rule: step_cases)
  case same
  with assms(2) show ?thesis by simp
next
  case (malloc buf)
  with assms(2) show ?thesis by (auto simp add: tracked_def less_Suc_eq split: if_splits)
next
  case (inc s e)
  with assms(2) show ?thesis by (fastforce simp add: tracked_def split: if_splits)
next
  case (dec s e)
  with assms(2) show ?thesis by (fastforce simp add: tracked_def split: if_splits)
next
  case (free s)
  with assms(2) show ?thesis by (auto simp add: tracked_def split: if_splits)
qed

lemma step_handles:
  assumes "step x b = (b', hs)"
  shows "nextSlot b \<le> nextSlot b' \<and> (\<forall>h \<in> set hs. nextSlot b \<le> h \<and> h < nextSlot b') \<and>
         length hs \<le> 1"
  using assms by (cases rule: step_cases) auto

lemma step_no_revival:
  assumes "step x b = (b', hs)" "s < nextSlot b" "buffers b s = None"
  shows "buffers b' s = None"
  using assms(1)
proof (cases rule: step_cases)
  case same
  with assms show ?thesis by simp
next
  case (malloc buf)
  with assms show ?thesis by auto
next
  case (inc s' e)
  with assms show ?thesis by auto
next
  case (dec s' e)
  with assms show ?thesis by auto
next
  case (free s')
  with assms show ?thesis by auto
qed

lemma run_Cons:
  "run (x # xs) b = (b'', hs'') \<Longrightarrow>
   \<exists>b' hs hs'. step x b = (b', hs) \<and> run xs b' = (b'', hs') \<and> hs'' = hs @ hs'"
  by (auto split: prod.splits)

lemma run_invariant:
  "run xs b = (b', hs) \<Longrightarrow> tracked b \<Longrightarrow>
   tracked b' \<and> nextSlot b \<le> nextSlot b' \<and> sorted_wrt (<) hs \<and>
   (\<forall>h \<in> set hs. nextSlot b \<le> h \<and> h < nextSlot b')"
proof (induction xs arbitrary: b hs)
  case Nil
  then show ?case by simp
next
  case (Cons x xs)
  from run_Cons [OF Cons.prems(1)] obtain b1 h1 h2 where
    s: "step x b = (b1, h1)" and r: "run xs b1 = (b', h2)" and hs: "hs = h1 @ h2" by blast
  have t1: "tracked b1" using step_tracked [OF s Cons.prems(2)] .
  note st = step_handles [OF s]
  note ih = Cons.IH [OF r t1]
  have "sorted_wrt (<) h1" using st by (cases h1) auto
  moreover have "\<forall>x \<in> set h1. \<forall>y \<in> set h2. x < y" using st ih by fastforce
  ultimately have "sorted_wrt (<) (h1 @ h2)" using ih by (simp add: sorted_wrt_append)
  moreover have "\<forall>h \<in> set (h1 @ h2). nextSlot b \<le> h \<and> h < nextSlot b'"
    using st ih by fastforce
  ultimately show ?case using ih st hs by simp
qed

lemma run_no_revival:
  "run xs b = (b', hs) \<Longrightarrow> s < nextSlot b \<Longrightarrow> buffers b s = None \<Longrightarrow> buffers b' s = None"
proof (induction xs arbitrary: b hs)
  case Nil
  then show ?case by simp
next
  case (Cons x xs)
  from run_Cons [OF Cons.prems(1)] obtain b1 h1 h2 where
    s: "step x b = (b1, h1)" and r: "run xs b1 = (b', h2)" by blast
  have "s < nextSlot b1" using step_handles [OF s] Cons.prems(2) by simp
  moreover have "buffers b1 s = None" using step_no_revival [OF s Cons.prems(2,3)] .
  ultimately show ?case using Cons.IH [OF r] by simp
qed

lemma run_append:
  "run (xs @ ys) b = (let (b', hs) = run xs b; (b'', hs') = run ys b' in (b'', hs @ hs'))"
  by (induction xs arbitrary: b) (auto split: prod.splits)

lemma tracked_new: "tracked newCPUBackend"
  by (simp add: tracked_def newCPUBackend_def)

text \<open>
  Claim C10.  For every sequence of \<open>malloc\<close>, \<open>incRef\<close> and \<open>decRef\<close> calls on a new
  backend: the handles returned by the \<open>malloc\<close> calls are strictly increasing (each is
  greater than every handle returned before); every live slot has a reference count of
  at least 1; and a handle that was returned and is no longer live at some point of the
  sequence (after the calls \<open>xs\<close>) is not live after any further calls \<open>ys\<close>.
\<close>

theorem slots_never_reused:
  assumes "run (xs @ ys) newCPUBackend = (b, hs)"
  shows "sorted_wrt (<) hs \<and>
         (\<forall>s e. buffers b s = Some e \<longrightarrow> 1 \<le> ref e) \<and>
         (\<forall>b1 h1 s. run xs newCPUBackend = (b1, h1) \<longrightarrow> s \<in> set h1 \<longrightarrow>
            buffers b1 s = None \<longrightarrow> buffers b s = None)"
proof -
  obtain b1 h1 where r1: "run xs newCPUBackend = (b1, h1)" by (cases "run xs newCPUBackend")
  obtain b2 h2 where r2: "run ys b1 = (b2, h2)" by (cases "run ys b1")
  have eq: "b = b2" "hs = h1 @ h2" using assms r1 r2 by (simp_all add: run_append)
  note i = run_invariant [OF assms tracked_new]
  note i1 = run_invariant [OF r1 tracked_new]
  have "\<And>s. s \<in> set h1 \<Longrightarrow> buffers b1 s = None \<Longrightarrow> buffers b s = None"
    using run_no_revival [OF r2] i1 eq by auto
  then show ?thesis using i r1 by (auto simp add: tracked_def)
qed

theorem slots_never_reused_witness:
  "\<exists>b. run ([Malloc 4 None, DecRef 1] @ [Malloc 4 None, IncRef 1]) newCPUBackend = (b, [1, 2]) \<and>
     buffers b 1 = None \<and> (\<exists>e. buffers b 2 = Some e \<and> 1 \<le> ref e)"
proof -
  have r1: "run [Malloc 4 None, DecRef 1] newCPUBackend
      = (\<lparr> buffers = Map.empty, nextSlot = 2 \<rparr>, [1])"
    by (simp add: malloc_def newArrayBuffer_def bindR_def newCPUBackend_def decRef_def)
  have r2: "run [Malloc 4 None, IncRef 1] \<lparr> buffers = Map.empty, nextSlot = 2 \<rparr>
      = (\<lparr> buffers = [2 \<mapsto> \<lparr> ref = 1, buffer = [0, 0, 0, 0] \<rparr>], nextSlot = 3 \<rparr>, [2])"
    by (simp add: malloc_def newArrayBuffer_def bindR_def incRef_def numeral_eq_Suc)
  have r: "run ([Malloc 4 None, DecRef 1] @ [Malloc 4 None, IncRef 1]) newCPUBackend
      = (\<lparr> buffers = [2 \<mapsto> \<lparr> ref = 1, buffer = [0, 0, 0, 0] \<rparr>], nextSlot = 3 \<rparr>, [1, 2])"
    unfolding run_append r1 Let_def prod.case r2 by simp
  show ?thesis
    using slots_never_reused [OF r] r1 r by simp
qed


section \<open>The CPU backend: asynchronous forms\<close>

lemma alreadyResolved_async: "alreadyResolved r (async r)"
  by (cases r) (simp_all add: async_def)

text \<open>
  Claim C8.  \<open>read\<close> returns a future that is already resolved with the result of
  \<open>readSync\<close> on the same state, or failed with the error \<open>readSync\<close> throws;
  \<open>executeOp\<close> leaves the backend in the state \<open>executeOpSync\<close> leaves it in and
  returns a future that is already resolved, or failed with the error \<open>executeOpSync\<close>
  throws.
\<close>

theorem async_mirrors:
  "alreadyResolved (readSync slot start count b) (read slot start count b) \<and>
   (\<exists>r b'. executeOpSync ar op inputs shapes outputs b = (r, b') \<and>
      (\<exists>p. executeOp ar op inputs shapes outputs b = (p, b') \<and> alreadyResolved r p))"
  by (cases "executeOpSync ar op inputs shapes outputs b")
    (simp add: read_def executeOp_def alreadyResolved_async)


section \<open>Pooling and its transpose\<close>

lemma names4: "map (\<lambda>i. ''i'' @ decimal i) [0..<4] = [''i0'', ''i1'', ''i2'', ''i3'']"
  by (simp add: upt_rec)

lemma upt2: "[0..<2] = [0, 1]"
  by (simp add: upt_rec)

lemma shape_pooled: "shape pooled = [6, 6, 2, 2]"
  by (simp add: pooled_def pool_def fromShape_def)

lemma toAluExp_pooled:
  "toAluExp pooled [o0, o1, w0, w1] =
     (strideSum [windowIndex o0 1 w0, windowIndex o1 2 w1] [12, 1], Const Bool 1)"
  by (simp add: pooled_def pool_def fromShape_def)

lemma evalShape_pooled:
  "evalShape pooled [a, b, c, d] = Inr ((a * 1 + c) * 12 + ((b * 2 + d) * 1 + 0), True)"
  unfolding evalShape_def shape_pooled
  by (simp add: names4 toAluExp_pooled windowIndex_def bindR_def)

lemma shape_unpooled: "shape (unpooled extents place) = [7, 12] @ extents"
  by (simp add: unpooled_def poolTranspose_def Let_def)

lemma toAluExp_unpooled:
  assumes "place 0 p0 e0 = (o0, w0)" "place 1 p1 e1 = (o1, w1)"
  shows "toAluExp (unpooled extents place) [p0, p1, e0, e1] =
     (strideSum [windowIndex o0 1 w0, windowIndex o1 2 w1] [12, 1],
      BinaryOp OpAnd (Const Bool 1)
        (allOf [inRange o0 6, inRange o1 6, inRange w0 2, inRange w1 2,
                sameIndex (windowIndex o0 1 w0) p0, sameIndex (windowIndex o1 2 w1) p1]))"
  unfolding unpooled_def poolTranspose_def Let_def shape_pooled
  using assms by (simp add: upt2 toAluExp_pooled)

lemma evaluate_sameIndex:
  "evaluate (sameIndex x y) env = Inr v \<Longrightarrow> v \<noteq> 0 \<Longrightarrow>
   \<exists>vx. evaluate x env = Inr vx \<and> evaluate y env = Inr vx"
  by (auto simp add: sameIndex_def bindR_Inr boolInt_def split: if_splits)

lemma evaluate_And:
  "evaluate (BinaryOp OpAnd x y) env = Inr v \<Longrightarrow> v \<noteq> 0 \<Longrightarrow>
   \<exists>vx vy. evaluate x env = Inr vx \<and> vx \<noteq> 0 \<and> evaluate y env = Inr vy \<and> vy \<noteq> 0"
  by (auto simp add: bindR_Inr boolInt_def split: if_splits)

lemma evaluate_allOf_Cons:
  "evaluate (allOf (c # cs)) env = Inr v \<Longrightarrow> v \<noteq> 0 \<Longrightarrow>
   \<exists>vc vs. evaluate c env = Inr vc \<and> vc \<noteq> 0 \<and> evaluate (allOf cs) env = Inr vs \<and> vs \<noteq> 0"
  unfolding allOf_def by (simp only: foldr_Cons o_apply) (rule evaluate_And)

lemma sub4:
  "map_of (zip [''i0'', ''i1'', ''i2'', ''i3''] [i, j, a, b]) ''i0'' = Some i"
  "map_of (zip [''i0'', ''i1'', ''i2'', ''i3''] [i, j, a, b]) ''i1'' = Some j"
  by simp_all

text \<open>
  Whatever the naming of placements: where the validity holds, the index is the flat
  index of the position.  The validity makes both window equations hold, and the index
  expression is the row-major sum of the two window indices.
\<close>

lemma unpooled_valid_index:
  assumes "length extents = 2"
    and "evalShape (unpooled extents place) [i, j, a, b] = Inr (x, True)"
  shows "x = i * 12 + j"
proof -
  let ?sub = "map_of (zip [''i0'', ''i1'', ''i2'', ''i3''] [i, j, a, b])"
  obtain o0 w0 where p0: "place 0 (Variable Int32 ''i0'') (Variable Int32 ''i2'') = (o0, w0)"
    by (cases "place 0 (Variable Int32 ''i0'') (Variable Int32 ''i2'')")
  obtain o1 w1 where p1: "place 1 (Variable Int32 ''i1'') (Variable Int32 ''i3'') = (o1, w1)"
    by (cases "place 1 (Variable Int32 ''i1'') (Variable Int32 ''i3'')")
  let ?c0 = "sameIndex (windowIndex o0 1 w0) (Variable Int32 ''i0'')"
  let ?c1 = "sameIndex (windowIndex o1 2 w1) (Variable Int32 ''i1'')"
  let ?valid = "BinaryOp OpAnd (Const Bool 1)
        (allOf [inRange o0 6, inRange o1 6, inRange w0 2, inRange w1 2, ?c0, ?c1])"
  let ?index = "strideSum [windowIndex o0 1 w0, windowIndex o1 2 w1] [12, 1]"
  have sh: "length (shape (unpooled extents place)) = 4"
    using assms(1) by (simp add: shape_unpooled)
  from assms(2) obtain v where
    ix: "evaluate ?index ?sub = Inr x" and va: "evaluate ?valid ?sub = Inr v" and v: "v \<noteq> 0"
    unfolding evalShape_def sh names4 Let_def
    by (auto simp add: toAluExp_unpooled [where place = place, OF p0 p1] bindR_def
        split: sum.splits)
  from evaluate_And [OF va v] obtain v1 where
    a1: "evaluate (allOf [inRange o0 6, inRange o1 6, inRange w0 2, inRange w1 2, ?c0, ?c1]) ?sub
           = Inr v1" "v1 \<noteq> 0"
    by auto
  from evaluate_allOf_Cons [OF a1] obtain v2 where
    a2: "evaluate (allOf [inRange o1 6, inRange w0 2, inRange w1 2, ?c0, ?c1]) ?sub = Inr v2"
      "v2 \<noteq> 0"
    by auto
  from evaluate_allOf_Cons [OF a2] obtain v3 where
    a3: "evaluate (allOf [inRange w0 2, inRange w1 2, ?c0, ?c1]) ?sub = Inr v3" "v3 \<noteq> 0"
    by auto
  from evaluate_allOf_Cons [OF a3] obtain v4 where
    a4: "evaluate (allOf [inRange w1 2, ?c0, ?c1]) ?sub = Inr v4" "v4 \<noteq> 0"
    by auto
  from evaluate_allOf_Cons [OF a4] obtain v5 where
    a5: "evaluate (allOf [?c0, ?c1]) ?sub = Inr v5" "v5 \<noteq> 0"
    by auto
  from evaluate_allOf_Cons [OF a5] obtain v6 s0 where
    s0: "evaluate ?c0 ?sub = Inr s0" "s0 \<noteq> 0"
    and a6: "evaluate (allOf [?c1]) ?sub = Inr v6" "v6 \<noteq> 0"
    by auto
  from evaluate_allOf_Cons [OF a6] obtain s1 where
    s1: "evaluate ?c1 ?sub = Inr s1" "s1 \<noteq> 0"
    by auto
  from evaluate_sameIndex [OF s0] have e0: "evaluate (windowIndex o0 1 w0) ?sub = Inr i"
    by (auto simp add: sub4)
  from evaluate_sameIndex [OF s1] have e1: "evaluate (windowIndex o1 2 w1) ?sub = Inr j"
    by (auto simp add: sub4)
  from ix e0 e1 show ?thesis
    by (simp add: bindR_def)
qed

lemma evalShape_sample:
  "\<exists>x valid. evalShape (unpooled [3, 5] (placeByOffset [1, 2])) [i, j, a, b] = Inr (x, valid)"
  unfolding evalShape_def shape_unpooled
  by (simp add: names4 placeByOffset_def windowIndex_def inRange_def sameIndex_def allOf_def
      bindR_def toAluExp_unpooled [where place = "placeByOffset [1, 2]"])

lemma evalShape_sample_cell:
  "evalShape (unpooled [3, 5] (placeByOffset [1, 2])) [1, 4, 1, 0] = Inr (16, True)"
  unfolding evalShape_def shape_unpooled
  by (simp add: names4 placeByOffset_def windowIndex_def inRange_def sameIndex_def allOf_def
      bindR_def boolInt_def toAluExp_unpooled [where place = "placeByOffset [1, 2]"])

text \<open>
  Claim C1.  Pooling a tracker of shape \<open>[7, 12]\<close> with window \<open>[2, 2]\<close> and strides
  \<open>[1, 2]\<close> gives a tracker of shape \<open>[6, 6, 2, 2]\<close> whose index expression evaluates
  to 0 at \<open>(0,0,0,0)\<close>, 1 at \<open>(0,0,0,1)\<close>, 12 at \<open>(0,0,1,0)\<close> and 20 at \<open>(0,4,1,0)\<close>,
  each with validity true.  For \<open>poolTranspose\<close> with the same parameters back to
  \<open>[7, 12]\<close>, for every position \<open>(i, j)\<close> (in particular those of \<open>[0,7) \<times> [0,12)\<close>)
  and all values \<open>(a, b)\<close> of the two synthesized coordinates, whatever their extents
  and their naming of placements: a produced pair \<open>(x, valid)\<close> with \<open>valid\<close> has
  \<open>x = i * 12 + j\<close>.  With extents \<open>[3, 5]\<close> and the sample naming a pair is produced
  at every coordinate.
\<close>

theorem pool_poolTranspose_round_trip:
  "shape pooled = [6, 6, 2, 2] \<and>
   evalShape pooled [0, 0, 0, 0] = Inr (0, True) \<and>
   evalShape pooled [0, 0, 0, 1] = Inr (1, True) \<and>
   evalShape pooled [0, 0, 1, 0] = Inr (12, True) \<and>
   evalShape pooled [0, 4, 1, 0] = Inr (20, True) \<and>
   (\<forall>extents place i j a b x valid.
      length extents = 2 \<longrightarrow>
      evalShape (unpooled extents place) [i, j, a, b] = Inr (x, valid) \<longrightarrow>
      valid \<longrightarrow> x = i * 12 + j) \<and>
   (\<forall>i j a b. \<exists>x valid.
      evalShape (unpooled [3, 5] (placeByOffset [1, 2])) [i, j, a, b] = Inr (x, valid))"
proof -
  have g: "\<forall>extents place i j a b x valid.
      length extents = 2 \<longrightarrow>
      evalShape (unpooled extents place) [i, j, a, b] = Inr (x, valid) \<longrightarrow>
      valid \<longrightarrow> x = i * 12 + j"
  proof (intro allI impI)
    fix extents :: "int list" and place i j a b x valid
    assume l: "length extents = 2"
      and e: "evalShape (unpooled extents place) [i, j, a, b] = Inr (x, valid)"
      and v: valid
    from e v have "evalShape (unpooled extents place) [i, j, a, b] = Inr (x, True)" by simp
    with l show "x = i * 12 + j" by (rule unpooled_valid_index)
  qed
  have t: "\<forall>i j a b. \<exists>x valid.
      evalShape (unpooled [3, 5] (placeByOffset [1, 2])) [i, j, a, b] = Inr (x, valid)"
    using evalShape_sample by blast
  have p: "shape pooled = [6, 6, 2, 2]"
    "evalShape pooled [0, 0, 0, 0] = Inr (0, True)"
    "evalShape pooled [0, 0, 0, 1] = Inr (1, True)"
    "evalShape pooled [0, 0, 1, 0] = Inr (12, True)"
    "evalShape pooled [0, 4, 1, 0] = Inr (20, True)"
    by (simp_all add: shape_pooled evalShape_pooled)
  show ?thesis
    using p g t by (intro conjI)
qed

theorem pool_poolTranspose_round_trip_witness:
  "evalShape (unpooled [3, 5] (placeByOffset [1, 2])) [1, 4, 1, 0] = Inr (16, True) \<and>
   (16 :: int) = 1 * 12 + 4"
proof -
  have "length [3, 5 :: int] = 2" by simp
  moreover note evalShape_sample_cell
  moreover have "\<forall>extents place i j a b x valid.
      length extents = 2 \<longrightarrow>
      evalShape (unpooled extents place) [i, j, a, b] = Inr (x, valid) \<longrightarrow>
      valid \<longrightarrow> x = i * 12 + j"
    using pool_poolTranspose_round_trip by blast
  ultimately show ?thesis by blast
qed


section \<open>Elementwise operations of the CPU backend\<close>

subsection \<open>Float32 views\<close>







subsection \<open>The loop\<close>







subsection \<open>Identity trackers over shape [4]\<close>












end
